theory Spec2Isabelle
  imports Complex_Main
begin

section \<open>Values of the JavaScript program\<close>

text \<open>
  The program is JavaScript. A string is modelled as a \<^typ>\<open>string\<close>, one character of the
  model standing for one UTF-16 code unit, so that \<^const>\<open>length\<close> is the \<^verbatim>\<open>.length\<close> of the
  source. A value read from JSON (the corpus file, a request body) is a \<open>json\<close>; a
  property that is absent (\<^verbatim>\<open>undefined\<close>) is \<^const>\<open>None\<close>.
\<close>

datatype json = JNull | JBool bool | JNum real | JStr string | JArr "json list" | JObj "(string \<times> json) list"

text \<open>The metadata object of a chunk: \<^verbatim>\<open>{ source: doc.source, title: doc.title }\<close>.\<close>

record metadata =
  source :: "json option"
  title :: "json option"

text \<open>A chunk \<^verbatim>\<open>{ text, metadata }\<close>.\<close>

record chunk =
  chunk_text :: string
  metadata :: metadata

section \<open>The chunker: \<^verbatim>\<open>Vectorizer.splitIntoChunks\<close>\<close>

definition CHUNK_SIZE :: nat where
  "CHUNK_SIZE = 500"

text \<open>
  \<^verbatim>\<open>text.split(" ")\<close>: the pieces of the text between occurrences of the separator, empty
  pieces included; the empty text gives one empty piece. \<open>split_by\<close> takes the separator as a
  predicate, \<open>js_split\<close> is the call of the source.
\<close>

fun split_by :: "(char \<Rightarrow> bool) \<Rightarrow> string \<Rightarrow> string list" where
  "split_by p [] = [[]]"
| "split_by p (c # cs) =
     (if p c then [] # split_by p cs
      else (case split_by p cs of [] \<Rightarrow> [[c]] | w # ws \<Rightarrow> (c # w) # ws))"

definition js_split :: "string \<Rightarrow> string list" where
  "js_split t = split_by (\<lambda>c. c = CHR '' '') t"

text \<open>\<^verbatim>\<open>Array.prototype.join\<close> on an array of strings.\<close>

fun join :: "string \<Rightarrow> string list \<Rightarrow> string" where
  "join sep [] = []"
| "join sep [x] = x"
| "join sep (x # y # ys) = x @ sep @ join sep (y # ys)"

text \<open>
  The \<^verbatim>\<open>for (const word of words)\<close> loop with its two variables \<^verbatim>\<open>chunks\<close> and
  \<^verbatim>\<open>currentChunk\<close>; the first equation is the \<^verbatim>\<open>if (currentChunk)\<close> after the loop. An empty
  string is falsy.
\<close>

fun chunk_words :: "metadata \<Rightarrow> string list \<Rightarrow> chunk list \<Rightarrow> string \<Rightarrow> chunk list" where
  "chunk_words meta [] chunks currentChunk =
     (if currentChunk \<noteq> [] then chunks @ [\<lparr>chunk_text = currentChunk, metadata = meta\<rparr>] else chunks)"
| "chunk_words meta (word # words) chunks currentChunk =
     (if length (currentChunk @ '' '' @ word) \<le> CHUNK_SIZE
      then chunk_words meta words chunks
             (currentChunk @ (if currentChunk \<noteq> [] then '' '' else []) @ word)
      else chunk_words meta words
             (if currentChunk \<noteq> [] then chunks @ [\<lparr>chunk_text = currentChunk, metadata = meta\<rparr>] else chunks)
             word)"

definition splitIntoChunks :: "string \<Rightarrow> metadata \<Rightarrow> chunk list" where
  "splitIntoChunks t meta = chunk_words meta (js_split t) [] []"

text \<open>
  The whitespace-delimited word sequence of a text, for a given notion \<open>ws\<close> of whitespace
  character: the maximal runs of characters that are not whitespace. \<open>is_whitespace\<close> is the
  whitespace of JavaScript among the code units below 256.
\<close>

definition word_sequence :: "(char \<Rightarrow> bool) \<Rightarrow> string \<Rightarrow> string list" where
  "word_sequence ws t = filter (\<lambda>w. w \<noteq> []) (split_by ws t)"

definition is_whitespace :: "char \<Rightarrow> bool" where
  "is_whitespace c \<longleftrightarrow> c \<in> {CHR '' '', CHR 0x09, CHR 0x0A, CHR 0x0B, CHR 0x0C, CHR 0x0D, CHR 0xA0}"

section \<open>Errors, property access and identifiers\<close>

text \<open>
  An exception of the program: a \<^verbatim>\<open>TypeError\<close> raised by the language (a property read on
  \<^verbatim>\<open>null\<close> or \<^verbatim>\<open>undefined\<close>, a call of something that is no function), or the failure of an
  external call, with its message.
\<close>

datatype js_error = TypeError | Failure string

text \<open>
  \<^verbatim>\<open>v.k\<close> for a value read from JSON and a key that is no built-in property: a \<^verbatim>\<open>TypeError\<close>
  on \<^verbatim>\<open>null\<close>, the member of an object (the last one, when the key is repeated),
  \<^verbatim>\<open>undefined\<close> otherwise.
\<close>

fun get_prop :: "json \<Rightarrow> string \<Rightarrow> js_error + json option" where
  "get_prop JNull k = Inl TypeError"
| "get_prop (JObj kvs) k = Inr (map_of (rev kvs) k)"
| "get_prop v k = Inr None"

text \<open>The decimal numeral of an array index, as a template literal prints it.\<close>

function decimal :: "nat \<Rightarrow> string" where
  "decimal n =
     (if n < 10 then [''0123456789'' ! n]
      else decimal (n div 10) @ [''0123456789'' ! (n mod 10)])"
  by pat_completeness auto
termination
  by (relation "measure id") auto

declare decimal.simps [simp del]

text \<open>The identifier \<^verbatim>\<open>`${docIndex}-${chunkIndex}`\<close>.\<close>

definition chunk_id :: "nat \<Rightarrow> nat \<Rightarrow> string" where
  "chunk_id docIndex chunkIndex = decimal docIndex @ ''-'' @ decimal chunkIndex"

section \<open>The external services\<close>

text \<open>
  The response of \<^verbatim>\<open>collection.query\<close>. It holds one inner array per query text:
  \<^verbatim>\<open>KadenaRAG.query\<close> reads \<^verbatim>\<open>results.documents[0]\<close> and \<^verbatim>\<open>results.metadatas[0]\<close>. The field
  \<^verbatim>\<open>ids\<close> is optional in the model because \<^verbatim>\<open>processDocuments\<close> tests it for truthiness.
\<close>

record query_response =
  ids :: "string list list option"
  documents :: "string list list"
  metadatas :: "metadata list list"

text \<open>The request of \<^verbatim>\<open>openai.chat.completions.create\<close>.\<close>

record chat_message =
  role :: string
  content :: string

record chat_request =
  model :: string
  messages :: "chat_message list"

text \<open>The calls the program makes to its external services, in the order it makes them.\<close>

datatype event =
    Query "json list" json
  | ReadJSON
  | Add "string list" "string list" "metadata list"
  | Completion chat_request

text \<open>
  The external services, as functions the program is given. \<open>'s\<close> is the state of the
  collection in the vector store: a query reads it, \<^verbatim>\<open>collection.add\<close> changes it and may
  fail. \<open>readJSON\<close> is the result of reading \<^verbatim>\<open>data/processed_docs.json\<close>. A completion returns
  the message contents of its \<^verbatim>\<open>choices\<close>. \<open>number_toString\<close> is the conversion of a number
  to a string by the language.
\<close>

record 's external =
  collection_query :: "'s \<Rightarrow> json list \<Rightarrow> json \<Rightarrow> js_error + query_response option"
  collection_add :: "'s \<Rightarrow> string list \<Rightarrow> string list \<Rightarrow> metadata list \<Rightarrow> js_error option \<times> 's"
  readJSON :: "js_error + json"
  chat_completions_create :: "chat_request \<Rightarrow> js_error + string list"
  number_toString :: "real \<Rightarrow> string"

section \<open>Ingestion: \<^verbatim>\<open>Vectorizer.processDocuments\<close>\<close>

text \<open>
  The body of \<^verbatim>\<open>documents.forEach\<close> up to the chunks of one document:
  \<^verbatim>\<open>this.splitIntoChunks(doc.content, { source: doc.source, title: doc.title })\<close>, where
  \<^verbatim>\<open>text.split\<close> raises a \<^verbatim>\<open>TypeError\<close> unless the content is a string.
\<close>

definition doc_chunks :: "json \<Rightarrow> js_error + chunk list" where
  "doc_chunks doc =
     (case get_prop doc ''content'' of
        Inl e \<Rightarrow> Inl e
      | Inr c \<Rightarrow>
         (case get_prop doc ''source'' of
            Inl e \<Rightarrow> Inl e
          | Inr s \<Rightarrow>
             (case get_prop doc ''title'' of
                Inl e \<Rightarrow> Inl e
              | Inr t \<Rightarrow>
                 (case c of
                    Some (JStr txt) \<Rightarrow> Inr (splitIntoChunks txt \<lparr>source = s, title = t\<rparr>)
                  | _ \<Rightarrow> Inl TypeError))))"

text \<open>The chunks a document produces, none where the chunking raises.\<close>

definition chunks_of :: "json \<Rightarrow> chunk list" where
  "chunks_of doc = (case doc_chunks doc of Inl e \<Rightarrow> [] | Inr chunks \<Rightarrow> chunks)"

text \<open>The identifiers of the chunks of the document at index \<open>d\<close>.\<close>

definition doc_ids :: "nat \<Rightarrow> json \<Rightarrow> string list" where
  "doc_ids d doc = map (chunk_id d) [0..<length (chunks_of doc)]"

text \<open>
  \<^verbatim>\<open>documents.forEach((doc, docIndex) => ...)\<close> with the four arrays it fills,
  \<^verbatim>\<open>allChunks\<close>, \<^verbatim>\<open>ids\<close>, \<^verbatim>\<open>texts\<close> and \<^verbatim>\<open>metadatas\<close>; an exception ends the loop.
\<close>

fun forEach_documents ::
  "json list \<Rightarrow> nat \<Rightarrow> chunk list \<times> string list \<times> string list \<times> metadata list
     \<Rightarrow> js_error + chunk list \<times> string list \<times> string list \<times> metadata list" where
  "forEach_documents [] docIndex acc = Inr acc"
| "forEach_documents (doc # rest) docIndex (allChunks, ids', texts, metadatas') =
     (case doc_chunks doc of
        Inl e \<Rightarrow> Inl e
      | Inr chunks \<Rightarrow>
          forEach_documents rest (Suc docIndex)
            (allChunks @ chunks,
             ids' @ map (\<lambda>(chunkIndex, chunk). chunk_id docIndex chunkIndex) (enumerate 0 chunks),
             texts @ map chunk_text chunks,
             metadatas' @ map metadata chunks))"

text \<open>The test \<^verbatim>\<open>check && check.ids && check.ids.length > 0\<close>.\<close>

definition probe_hit :: "query_response option \<Rightarrow> bool" where
  "probe_hit check =
     (case check of
        None \<Rightarrow> False
      | Some r \<Rightarrow> (case ids r of None \<Rightarrow> False | Some xs \<Rightarrow> length xs > 0))"

text \<open>The ids a response returns, over all its query texts.\<close>

definition returned_ids :: "query_response option \<Rightarrow> string list" where
  "returned_ids check =
     (case check of
        None \<Rightarrow> []
      | Some r \<Rightarrow> (case ids r of None \<Rightarrow> [] | Some xs \<Rightarrow> concat xs))"

text \<open>
  The result of a run: how it ended (the counts are those of the final log line), the
  collection afterwards, and the external calls made.
\<close>

datatype ingest_outcome = Skipped | Processed nat nat | Threw js_error

record 's ingest_run =
  outcome :: ingest_outcome
  store :: 's
  trace :: "event list"

definition processDocuments :: "'s external \<Rightarrow> 's \<Rightarrow> 's ingest_run" where
  "processDocuments ext s =
     (let probe = Query [JStr '' ''] (JNum 1) in
      case collection_query ext s [JStr '' ''] (JNum 1) of
        Inl e \<Rightarrow> \<lparr>outcome = Threw e, store = s, trace = [probe]\<rparr>
      | Inr check \<Rightarrow>
          if probe_hit check then \<lparr>outcome = Skipped, store = s, trace = [probe]\<rparr>
          else
            (case readJSON ext of
               Inl e \<Rightarrow> \<lparr>outcome = Threw e, store = s, trace = [probe, ReadJSON]\<rparr>
             | Inr (JArr docs) \<Rightarrow>
                 (case forEach_documents docs 0 ([], [], [], []) of
                    Inl e \<Rightarrow> \<lparr>outcome = Threw e, store = s, trace = [probe, ReadJSON]\<rparr>
                  | Inr (allChunks, ids', texts, metadatas') \<Rightarrow>
                      (case collection_add ext s ids' texts metadatas' of
                         (Some e, s') \<Rightarrow>
                           \<lparr>outcome = Threw e, store = s',
                            trace = [probe, ReadJSON, Add ids' texts metadatas']\<rparr>
                       | (None, s') \<Rightarrow>
                           \<lparr>outcome = Processed (length allChunks) (length docs), store = s',
                            trace = [probe, ReadJSON, Add ids' texts metadatas']\<rparr>))
             | Inr _ \<Rightarrow> \<lparr>outcome = Threw TypeError, store = s, trace = [probe, ReadJSON]\<rparr>))"

section \<open>The query engine: \<^verbatim>\<open>Vectorizer.query\<close> and \<^verbatim>\<open>KadenaRAG.query\<close>\<close>

text \<open>The first exception among a sequence of results, or all their values.\<close>

fun all_results :: "(js_error + 'a) list \<Rightarrow> js_error + 'a list" where
  "all_results [] = Inr []"
| "all_results (Inl e # rs) = Inl e"
| "all_results (Inr v # rs) = (case all_results rs of Inl e \<Rightarrow> Inl e | Inr vs \<Rightarrow> Inr (v # vs))"

text \<open>
  The conversion of a value to a string in a template literal. An array joins its elements
  with commas, \<^verbatim>\<open>null\<close> elements as empty strings, and raises where an element does. An
  object prints through \<^verbatim>\<open>Object.prototype.toString\<close>; when it has a key \<^verbatim>\<open>toString\<close> of its
  own, that member is no function, \<^verbatim>\<open>valueOf\<close> gives no primitive value, and the conversion
  raises a \<^verbatim>\<open>TypeError\<close>.
\<close>

fun js_to_string :: "(real \<Rightarrow> string) \<Rightarrow> json \<Rightarrow> js_error + string" where
  "js_to_string num JNull = Inr ''null''"
| "js_to_string num (JBool b) = Inr (if b then ''true'' else ''false'')"
| "js_to_string num (JNum r) = Inr (num r)"
| "js_to_string num (JStr s) = Inr s"
| "js_to_string num (JArr xs) =
     (case all_results (map (\<lambda>x. if x = JNull then Inr [] else js_to_string num x) xs) of
        Inl e \<Rightarrow> Inl e
      | Inr parts \<Rightarrow> Inr (join '','' parts))"
| "js_to_string num (JObj kvs) =
     (case map_of (rev kvs) ''toString'' of
        None \<Rightarrow> Inr ''[object Object]''
      | Some v \<Rightarrow> Inl TypeError)"

text \<open>\<^verbatim>\<open>async query(queryText, numResults = 5)\<close>: the default stands for an absent argument.\<close>

definition Vectorizer_query ::
  "'s external \<Rightarrow> 's \<Rightarrow> json \<Rightarrow> json option \<Rightarrow> js_error + query_response option" where
  "Vectorizer_query ext s queryText numResults =
     collection_query ext s [queryText] (case numResults of None \<Rightarrow> JNum 5 | Some n \<Rightarrow> n)"

definition SYSTEM_PROMPT :: string where
  "SYSTEM_PROMPT =
     ''You are K-Agent: An AI agent that answers questions about Kadena blockchain. '' @
     ''Use the provided context to answer questions accurately. '' @
     ''Be detailed in your answers '' @
     ''If you're not sure about something, say so.'' @
     ''Do NOT use Markdown formatting in your responses.''"

text \<open>
  The argument of \<^verbatim>\<open>openai.chat.completions.create\<close>, from the context and the question
  as the template literal prints it.
\<close>

definition chat_request_of :: "string \<Rightarrow> string \<Rightarrow> chat_request" where
  "chat_request_of context_text question_text =
     \<lparr>model = ''o3-mini'',
      messages =
        [\<lparr>role = ''system'', content = SYSTEM_PROMPT\<rparr>,
         \<lparr>role = ''user'',
          content = ''Context: '' @ context_text @ [CHR 0x0A, CHR 0x0A] @ ''Question: '' @ question_text\<rparr>]\<rparr>"

text \<open>The value \<^verbatim>\<open>{ answer, sources }\<close>; a source is the pair \<^verbatim>\<open>{ title, source }\<close>.\<close>

record rag_answer =
  answer :: string
  sources :: "(json option \<times> json option) list"

text \<open>
  \<^verbatim>\<open>async query(question, numResults = 5)\<close> of \<^verbatim>\<open>KadenaRAG\<close>: the result or the exception,
  and the external calls made. Reading index 0 of an empty array gives \<^verbatim>\<open>undefined\<close>, and the
  property read on it raises a \<^verbatim>\<open>TypeError\<close>. The template literal of the user message is
  evaluated before the completion is called, so a question that does not convert to a
  string raises before that call.
\<close>

definition KadenaRAG_query ::
  "'s external \<Rightarrow> 's \<Rightarrow> json \<Rightarrow> json option \<Rightarrow> (js_error + rag_answer) \<times> event list" where
  "KadenaRAG_query ext s question numResults =
     (let n = (case numResults of None \<Rightarrow> JNum 5 | Some v \<Rightarrow> v);
          retrieval = Query [question] n in
      case Vectorizer_query ext s question (Some n) of
        Inl e \<Rightarrow> (Inl e, [retrieval])
      | Inr None \<Rightarrow> (Inl TypeError, [retrieval])
      | Inr (Some results) \<Rightarrow>
          (case documents results of
             [] \<Rightarrow> (Inl TypeError, [retrieval])
           | docs0 # _ \<Rightarrow>
               (let context_text = join [CHR 0x0A, CHR 0x0A] docs0 in
                case js_to_string (number_toString ext) question of
                  Inl e \<Rightarrow> (Inl e, [retrieval])
                | Inr question_text \<Rightarrow>
                    (let request = chat_request_of context_text question_text in
                     case chat_completions_create ext request of
                       Inl e \<Rightarrow> (Inl e, [retrieval, Completion request])
                     | Inr choices \<Rightarrow>
                         (case choices of
                            [] \<Rightarrow> (Inl TypeError, [retrieval, Completion request])
                          | c # _ \<Rightarrow>
                              (case metadatas results of
                                 [] \<Rightarrow> (Inl TypeError, [retrieval, Completion request])
                               | metas0 # _ \<Rightarrow>
                                   (Inr \<lparr>answer = c,
                                         sources = map (\<lambda>meta. (title meta, source meta)) metas0\<rparr>,
                                    [retrieval, Completion request])))))))"

section \<open>The request handler: \<^verbatim>\<open>router.post('/rag', ...)\<close> of \<^verbatim>\<open>createRagRouter\<close>\<close>

text \<open>Truthiness of a value read from JSON.\<close>

fun truthy :: "json \<Rightarrow> bool" where
  "truthy JNull = False"
| "truthy (JBool b) = b"
| "truthy (JNum r) = (r \<noteq> 0)"
| "truthy (JStr s) = (s \<noteq> [])"
| "truthy (JArr xs) = True"
| "truthy (JObj kvs) = True"

text \<open>
  The response: its status (200 unless \<^verbatim>\<open>res.status\<close> sets it) and its JSON body, which is
  \<^verbatim>\<open>{ error }\<close>, \<^verbatim>\<open>{ error, details }\<close> with the message of the exception, or
  \<^verbatim>\<open>{ question, answer, sources }\<close>.
\<close>

datatype response_body =
    ErrorBody string
  | FailureBody string js_error
  | AnswerBody json string "(json option \<times> json option) list"

record http_response =
  status :: nat
  body :: response_body

text \<open>
  The handler, on \<^verbatim>\<open>req.body\<close> as the JSON body parser left it. The destructuring
  \<^verbatim>\<open>const { question, numResults = 5 } = req.body\<close> raises inside the \<^verbatim>\<open>try\<close> when the body
  is \<^verbatim>\<open>null\<close>.
\<close>

definition post_rag :: "'s external \<Rightarrow> 's \<Rightarrow> json \<Rightarrow> http_response \<times> event list" where
  "post_rag ext s req_body =
     (case get_prop req_body ''question'' of
        Inl e \<Rightarrow> (\<lparr>status = 500, body = FailureBody ''Failed to process question'' e\<rparr>, [])
      | Inr question \<Rightarrow>
          (case get_prop req_body ''numResults'' of
             Inl e \<Rightarrow> (\<lparr>status = 500, body = FailureBody ''Failed to process question'' e\<rparr>, [])
           | Inr given \<Rightarrow>
               (let numResults = (case given of None \<Rightarrow> JNum 5 | Some v \<Rightarrow> v) in
                case question of
                  None \<Rightarrow> (\<lparr>status = 400, body = ErrorBody ''Question is required''\<rparr>, [])
                | Some q \<Rightarrow>
                    if \<not> truthy q
                    then (\<lparr>status = 400, body = ErrorBody ''Question is required''\<rparr>, [])
                    else
                      (case KadenaRAG_query ext s q (Some numResults) of
                         (Inl e, tr) \<Rightarrow>
                           (\<lparr>status = 500, body = FailureBody ''Failed to process question'' e\<rparr>, tr)
                       | (Inr response, tr) \<Rightarrow>
                           (\<lparr>status = 200,
                             body = AnswerBody q (answer response) (sources response)\<rparr>, tr)))))"

section \<open>An in-memory collection\<close>

text \<open>
  A collection to run the model on: its records in insertion order, \<^verbatim>\<open>add\<close> appending
  and never failing, a query answering every query text with the first \<^verbatim>\<open>nResults\<close> records
  (the ranking of a real store is its own). As with ChromaDB, a response holds one inner
  array per query text, and that array is empty on an empty collection.
\<close>

type_synonym mem_store = "(string \<times> string \<times> metadata) list"

definition nResults_nat :: "json \<Rightarrow> nat" where
  "nResults_nat j = (case j of JNum r \<Rightarrow> nat \<lfloor>r\<rfloor> | _ \<Rightarrow> 0)"

definition mem_query :: "mem_store \<Rightarrow> json list \<Rightarrow> json \<Rightarrow> js_error + query_response option" where
  "mem_query s queryTexts nResults =
     (let hits = take (nResults_nat nResults) s in
      Inr (Some \<lparr>ids = Some (map (\<lambda>q. map fst hits) queryTexts),
                 documents = map (\<lambda>q. map (fst \<circ> snd) hits) queryTexts,
                 metadatas = map (\<lambda>q. map (snd \<circ> snd) hits) queryTexts\<rparr>))"

definition mem_add ::
  "mem_store \<Rightarrow> string list \<Rightarrow> string list \<Rightarrow> metadata list \<Rightarrow> js_error option \<times> mem_store" where
  "mem_add s new_ids new_texts new_metadatas = (None, s @ zip new_ids (zip new_texts new_metadatas))"

text \<open>
  The conversion of a number to a string on the integers of magnitude below \<open>10\<^sup>2\<^sup>1\<close>, the
  numbers the examples print.
\<close>

definition integer_toString :: "real \<Rightarrow> string" where
  "integer_toString r =
     (if r < 0 then ''-'' @ decimal (nat \<lfloor>- r\<rfloor>) else decimal (nat \<lfloor>r\<rfloor>))"

definition mem_external ::
  "(js_error + json) \<Rightarrow> (chat_request \<Rightarrow> js_error + string list) \<Rightarrow> mem_store external" where
  "mem_external corpus llm =
     \<lparr>collection_query = mem_query, collection_add = mem_add, readJSON = corpus,
      chat_completions_create = llm, number_toString = integer_toString\<rparr>"

section \<open>Example data\<close>

text \<open>A collection whose query response carries no \<^verbatim>\<open>ids\<close> at all.\<close>

definition no_ids_external ::
  "(js_error + json) \<Rightarrow> (chat_request \<Rightarrow> js_error + string list) \<Rightarrow> mem_store external" where
  "no_ids_external corpus llm =
     (mem_external corpus llm)
       \<lparr>collection_query := \<lambda>s queryTexts nResults.
          Inr (Some \<lparr>ids = None, documents = [], metadatas = []\<rparr>)\<rparr>"

text \<open>A document of the corpus, its metadata, and a corpus whose first document gives two chunks.\<close>

definition mining_doc :: json where
  "mining_doc = JObj [(''content'', JStr ''Kadena uses Blake2s mining.''),
                      (''source'', JStr ''mining.md''), (''title'', JStr ''Mining'')]"

definition mining_metadata :: metadata where
  "mining_metadata = \<lparr>source = Some (JStr ''mining.md''), title = Some (JStr ''Mining'')\<rparr>"


text \<open>Three words of 200 characters, separated by a tab and a newline.\<close>

definition three_words :: string where
  "three_words =
     replicate 200 CHR ''a'' @ [CHR 0x09] @ replicate 200 CHR ''b'' @ [CHR 0x0A] @ replicate 200 CHR ''c''"

text \<open>A collection holding two chunks of one source.\<close>

definition mining_store :: mem_store where
  "mining_store = [(''0-0'', ''Kadena uses Blake2s mining.'', mining_metadata),
                   (''0-1'', ''Chainweb braids many chains.'', mining_metadata)]"

section \<open>Properties of the chunker\<close>

lemma split_by_nonempty: "split_by p t \<noteq> []"
  by (induction t) (auto split: list.splits)

lemma split_by_Cons_keep:
  "\<not> p c \<Longrightarrow> split_by p (c # cs) = (c # hd (split_by p cs)) # tl (split_by p cs)"
  using split_by_nonempty [of p cs] by (cases "split_by p cs") auto

lemma split_by_append_sep:
  "p s \<Longrightarrow> split_by p (a @ s # b) = split_by p a @ split_by p b"
proof (induction a)
  case Nil
  then show ?case by simp
next
  case (Cons c a)
  show ?case
  proof (cases "p c")
    case True
    with Cons show ?thesis by simp
  next
    case False
    have ne: "split_by p a \<noteq> []" by (rule split_by_nonempty)
    from False have "split_by p ((c # a) @ s # b) =
        (c # hd (split_by p (a @ s # b))) # tl (split_by p (a @ s # b))"
      using split_by_Cons_keep [of p c "a @ s # b"] by simp
    also have "\<dots> = (c # hd (split_by p a)) # tl (split_by p a) @ split_by p b"
      using Cons ne by simp
    also have "\<dots> = split_by p (c # a) @ split_by p b"
      using False split_by_Cons_keep [of p c a] by simp
    finally show ?thesis .
  qed
qed

lemma split_by_no_sep: "w \<in> set (split_by p t) \<Longrightarrow> c \<in> set w \<Longrightarrow> \<not> p c"
proof (induction t arbitrary: w)
  case Nil
  then show ?case by simp
next
  case (Cons d t)
  show ?case
  proof (cases "p d")
    case True
    with Cons show ?thesis by auto
  next
    case False
    obtain v vs where r: "split_by p t = v # vs"
      using split_by_nonempty [of p t] by (cases "split_by p t") auto
    with False Cons.prems have "w = d # v \<or> w \<in> set vs" by auto
    then show ?thesis
    proof
      assume "w = d # v"
      with Cons.prems(2) have "c = d \<or> c \<in> set v" by auto
      then show ?thesis using False Cons.IH [of v] r by auto
    next
      assume "w \<in> set vs"
      then show ?thesis using Cons.IH [of w] Cons.prems(2) r by auto
    qed
  qed
qed

lemma word_sequence_Nil: "word_sequence p [] = []"
  by (simp add: word_sequence_def)

lemma word_sequence_append_sep:
  "p s \<Longrightarrow> word_sequence p (a @ s # b) = word_sequence p a @ word_sequence p b"
  by (simp add: word_sequence_def split_by_append_sep)

lemma word_sequence_join:
  assumes "p CHR '' ''"
  shows "word_sequence p (join '' '' xs) = concat (map (word_sequence p) xs)"
proof (induction xs)
  case Nil
  then show ?case by (simp add: word_sequence_Nil)
next
  case (Cons x xs)
  show ?case
  proof (cases xs)
    case Nil
    then show ?thesis by simp
  next
    case (Cons y ys)
    have "word_sequence p (x @ CHR '' '' # join '' '' (y # ys)) =
          word_sequence p x @ word_sequence p (join '' '' (y # ys))"
      using assms by (rule word_sequence_append_sep)
    with Cons Cons.IH show ?thesis by simp
  qed
qed

lemma join_split_by: "join [s] (split_by (\<lambda>c. c = s) t) = t"
proof (induction t)
  case Nil
  then show ?case by simp
next
  case (Cons c t)
  obtain v vs where r: "split_by (\<lambda>c. c = s) t = v # vs"
    using split_by_nonempty [of _ t] by (cases "split_by (\<lambda>c. c = s) t") auto
  show ?case
  proof (cases "c = s")
    case True
    with Cons r show ?thesis by simp
  next
    case False
    with Cons r show ?thesis by (cases vs) auto
  qed
qed

lemma word_sequence_js_split:
  assumes "p CHR '' ''"
  shows "concat (map (word_sequence p) (js_split t)) = word_sequence p t"
proof -
  have "word_sequence p (join '' '' (js_split t)) = concat (map (word_sequence p) (js_split t))"
    using assms by (rule word_sequence_join)
  moreover have "join '' '' (js_split t) = t"
    unfolding js_split_def by (rule join_split_by)
  ultimately show ?thesis by simp
qed

lemma chunk_words_word_sequence:
  assumes "p CHR '' ''"
  shows "concat (map (\<lambda>ch. word_sequence p (chunk_text ch)) (chunk_words meta ws chunks cur)) =
         concat (map (\<lambda>ch. word_sequence p (chunk_text ch)) chunks) @ word_sequence p cur
           @ concat (map (word_sequence p) ws)"
proof (induction ws arbitrary: chunks cur)
  case Nil
  then show ?case by (simp add: word_sequence_Nil)
next
  case (Cons w ws)
  have sep: "word_sequence p (cur @ CHR '' '' # w) = word_sequence p cur @ word_sequence p w"
    using assms by (rule word_sequence_append_sep)
  show ?case
    by (simp add: Cons.IH sep word_sequence_Nil)
qed

lemma chunk_words_nonempty:
  "\<forall>ch \<in> set chunks. chunk_text ch \<noteq> [] \<Longrightarrow>
   \<forall>ch \<in> set (chunk_words meta ws chunks cur). chunk_text ch \<noteq> []"
proof (induction ws arbitrary: chunks cur)
  case Nil
  then show ?case by auto
next
  case (Cons w ws)
  let ?chunks = "if cur \<noteq> [] then chunks @ [\<lparr>chunk_text = cur, metadata = meta\<rparr>] else chunks"
  have a: "\<forall>ch \<in> set ?chunks. chunk_text ch \<noteq> []"
    using Cons.prems by auto
  show ?case
    using Cons.IH [OF Cons.prems] Cons.IH [OF a] by simp
qed

lemma chunk_words_all_empty:
  "\<forall>w \<in> set ws. w = [] \<Longrightarrow> chunk_words meta ws chunks [] = chunks"
  by (induction ws arbitrary: chunks) (auto simp: CHUNK_SIZE_def)

lemma split_by_all_sep: "\<forall>c \<in> set t. p c \<Longrightarrow> \<forall>w \<in> set (split_by p t). w = []"
  by (induction t) auto

lemma chunk_words_bounded:
  "\<forall>ch \<in> set chunks. length (chunk_text ch) \<le> CHUNK_SIZE \<or> chunk_text ch \<in> W \<Longrightarrow>
   length cur \<le> CHUNK_SIZE \<or> cur \<in> W \<Longrightarrow> set ws \<subseteq> W \<Longrightarrow>
   \<forall>ch \<in> set (chunk_words meta ws chunks cur). length (chunk_text ch) \<le> CHUNK_SIZE \<or> chunk_text ch \<in> W"
proof (induction ws arbitrary: chunks cur)
  case Nil
  then show ?case by auto
next
  case (Cons w ws)
  show ?case
  proof (cases "length (cur @ '' '' @ w) \<le> CHUNK_SIZE")
    case True
    have "length (cur @ (if cur \<noteq> [] then '' '' else []) @ w) \<le> CHUNK_SIZE"
      using True by auto
    then show ?thesis
      using True Cons.IH [of chunks "cur @ (if cur \<noteq> [] then '' '' else []) @ w"] Cons.prems
      by simp
  next
    case False
    let ?chunks = "if cur \<noteq> [] then chunks @ [\<lparr>chunk_text = cur, metadata = meta\<rparr>] else chunks"
    have a: "\<forall>ch \<in> set ?chunks. length (chunk_text ch) \<le> CHUNK_SIZE \<or> chunk_text ch \<in> W"
      using Cons.prems(1,2) by auto
    have b: "length w \<le> CHUNK_SIZE \<or> w \<in> W" using Cons.prems(3) by simp
    have c: "set ws \<subseteq> W" using Cons.prems(3) by simp
    show ?thesis
      using False Cons.IH [OF a b c] by simp
  qed
qed

lemma split_by_subset: "w \<in> set (split_by p t) \<Longrightarrow> set w \<subseteq> set t"
proof (induction t arbitrary: w)
  case Nil
  then show ?case by simp
next
  case (Cons d t)
  show ?case
  proof (cases "p d")
    case True
    with Cons show ?thesis by auto
  next
    case False
    obtain v vs where r: "split_by p t = v # vs"
      using split_by_nonempty [of p t] by (cases "split_by p t") auto
    with False Cons.prems have "w = d # v \<or> w \<in> set vs" by auto
    then show ?thesis
    proof
      assume "w = d # v"
      then show ?thesis using Cons.IH [of v] r by auto
    next
      assume "w \<in> set vs"
      then show ?thesis using Cons.IH [of w] r by auto
    qed
  qed
qed

lemma split_by_single: "\<forall>c \<in> set t. \<not> p c \<Longrightarrow> split_by p t = [t]"
  by (induction t) auto

text \<open>
  Claim C2. For every input text and metadata, joining the texts of the chunks produced by
  \<^verbatim>\<open>splitIntoChunks\<close> with single spaces gives a text with the same whitespace-delimited word
  sequence as the input: no word is dropped, duplicated or reordered. This holds for every
  notion of whitespace that counts the space character, the separator the source splits at.
\<close>

theorem splitIntoChunks_preserves_words:
  assumes sp: "ws CHR '' ''"
  shows "word_sequence ws (join '' '' (map chunk_text (splitIntoChunks t meta))) = word_sequence ws t"
proof -
  have "word_sequence ws (join '' '' (map chunk_text (splitIntoChunks t meta)))
        = concat (map (word_sequence ws) (map chunk_text (splitIntoChunks t meta)))"
    using sp by (rule word_sequence_join)
  also have "\<dots> = concat (map (word_sequence ws) (js_split t))"
    using chunk_words_word_sequence [of ws meta "js_split t" "[]" "[]", OF sp]
    by (simp add: splitIntoChunks_def word_sequence_Nil comp_def)
  also have "\<dots> = word_sequence ws t"
    using sp by (rule word_sequence_js_split)
  finally show ?thesis .
qed

theorem splitIntoChunks_preserves_words_witness:
  "is_whitespace CHR '' '' \<and>
   map chunk_text (splitIntoChunks ''  to be  or not '' \<lparr>source = None, title = None\<rparr>) = [''to be  or not ''] \<and>
   word_sequence is_whitespace ''  to be  or not '' = [''to'', ''be'', ''or'', ''not''] \<and>
   word_sequence is_whitespace
     (join '' '' (map chunk_text (splitIntoChunks ''  to be  or not '' \<lparr>source = None, title = None\<rparr>)))
     = word_sequence is_whitespace ''  to be  or not ''"
proof -
  have sp: "is_whitespace CHR '' ''"
    by (simp add: is_whitespace_def)
  have "map chunk_text (splitIntoChunks ''  to be  or not '' \<lparr>source = None, title = None\<rparr>) = [''to be  or not '']"
    by (simp add: splitIntoChunks_def js_split_def CHUNK_SIZE_def)
  moreover have "word_sequence is_whitespace ''  to be  or not '' = [''to'', ''be'', ''or'', ''not'']"
    by (simp add: word_sequence_def is_whitespace_def)
  ultimately show ?thesis
    using sp splitIntoChunks_preserves_words [of is_whitespace "''  to be  or not ''" "\<lparr>source = None, title = None\<rparr>"]
    by simp
qed

text \<open>
  Claim C3, amended. For every input text and metadata, every chunk produced by
  \<^verbatim>\<open>splitIntoChunks\<close> has a text of at most 500 characters, except a chunk that is exactly
  one element of \<^verbatim>\<open>text.split(" ")\<close> longer than 500 characters: a run of characters other
  than the space, which may hold other whitespace. Such a chunk holds no space character
  and its sequence of space-delimited words is the chunk alone; when the space is the only
  whitespace character of the input, the chunk is one whitespace-delimited word.
\<close>

theorem splitIntoChunks_length_bound:
  "\<forall>ch \<in> set (splitIntoChunks t meta).
     length (chunk_text ch) \<le> 500 \<or>
     (500 < length (chunk_text ch) \<and> chunk_text ch \<in> set (js_split t) \<and>
      CHR '' '' \<notin> set (chunk_text ch) \<and>
      word_sequence (\<lambda>c. c = CHR '' '') (chunk_text ch) = [chunk_text ch] \<and>
      ((\<forall>c \<in> set t. ws c \<longrightarrow> c = CHR '' '') \<longrightarrow>
         word_sequence ws (chunk_text ch) = [chunk_text ch]))"
proof
  fix ch
  assume ch: "ch \<in> set (splitIntoChunks t meta)"
  have "\<forall>ch \<in> set (chunk_words meta (js_split t) [] []).
          length (chunk_text ch) \<le> CHUNK_SIZE \<or> chunk_text ch \<in> set (js_split t)"
    by (rule chunk_words_bounded) (simp_all add: CHUNK_SIZE_def)
  with ch have a: "length (chunk_text ch) \<le> 500 \<or> chunk_text ch \<in> set (js_split t)"
    by (simp add: splitIntoChunks_def CHUNK_SIZE_def)
  have b: "chunk_text ch \<in> set (js_split t) \<Longrightarrow> CHR '' '' \<notin> set (chunk_text ch)"
    unfolding js_split_def using split_by_no_sep [of "chunk_text ch" _ t "CHR '' ''"] by blast
  have c: "\<forall>c \<in> set (chunk_text ch). \<not> p c \<Longrightarrow> 500 < length (chunk_text ch) \<Longrightarrow>
      word_sequence p (chunk_text ch) = [chunk_text ch]" for p
  proof -
    assume "\<forall>c \<in> set (chunk_text ch). \<not> p c" and len: "500 < length (chunk_text ch)"
    then have "split_by p (chunk_text ch) = [chunk_text ch]"
      by (intro split_by_single)
    moreover from len have "chunk_text ch \<noteq> []" by auto
    ultimately show ?thesis by (simp add: word_sequence_def)
  qed
  have d: "chunk_text ch \<in> set (js_split t) \<Longrightarrow> set (chunk_text ch) \<subseteq> set t"
    unfolding js_split_def by (rule split_by_subset)
  show "length (chunk_text ch) \<le> 500 \<or>
     (500 < length (chunk_text ch) \<and> chunk_text ch \<in> set (js_split t) \<and>
      CHR '' '' \<notin> set (chunk_text ch) \<and>
      word_sequence (\<lambda>c. c = CHR '' '') (chunk_text ch) = [chunk_text ch] \<and>
      ((\<forall>c \<in> set t. ws c \<longrightarrow> c = CHR '' '') \<longrightarrow>
         word_sequence ws (chunk_text ch) = [chunk_text ch]))"
  proof (cases "length (chunk_text ch) \<le> 500")
    case True
    then show ?thesis by simp
  next
    case False
    then have len: "500 < length (chunk_text ch)" by simp
    with a have w: "chunk_text ch \<in> set (js_split t)" by simp
    from b [OF w] have nosp: "CHR '' '' \<notin> set (chunk_text ch)" .
    then have one: "word_sequence (\<lambda>c. c = CHR '' '') (chunk_text ch) = [chunk_text ch]"
      using c [of "\<lambda>c. c = CHR '' ''"] len by blast
    have "word_sequence ws (chunk_text ch) = [chunk_text ch]"
      if only: "\<forall>c \<in> set t. ws c \<longrightarrow> c = CHR '' ''"
    proof -
      from only d [OF w] nosp have "\<forall>c \<in> set (chunk_text ch). \<not> ws c" by blast
      then show ?thesis using len by (rule c)
    qed
    with len w nosp one show ?thesis by blast
  qed
qed

theorem splitIntoChunks_length_bound_witness:
  "\<lparr>chunk_text = replicate 501 CHR ''a'', metadata = \<lparr>source = None, title = None\<rparr>\<rparr>
     \<in> set (splitIntoChunks (replicate 501 CHR ''a'' @ '' b'') \<lparr>source = None, title = None\<rparr>) \<and>
   500 < length (replicate 501 CHR ''a'') \<and>
   replicate 501 CHR ''a'' \<in> set (js_split (replicate 501 CHR ''a'' @ '' b'')) \<and>
   CHR '' '' \<notin> set (replicate 501 CHR ''a'') \<and>
   word_sequence (\<lambda>c. c = CHR '' '') (replicate 501 CHR ''a'') = [replicate 501 CHR ''a''] \<and>
   set (replicate 501 CHR ''a'' @ '' b'') = {CHR ''a'', CHR '' '', CHR ''b''} \<and>
   word_sequence is_whitespace (replicate 501 CHR ''a'') = [replicate 501 CHR ''a''] \<and>
   \<lparr>chunk_text = ''b'', metadata = \<lparr>source = None, title = None\<rparr>\<rparr>
     \<in> set (splitIntoChunks (replicate 501 CHR ''a'' @ '' b'') \<lparr>source = None, title = None\<rparr>) \<and>
   length ''b'' \<le> 500"
proof -
  let ?m = "\<lparr>source = None, title = None\<rparr>"
  let ?big = "\<lparr>chunk_text = replicate 501 CHR ''a'', metadata = ?m\<rparr>"
  have chunks: "splitIntoChunks (replicate 501 CHR ''a'' @ '' b'') ?m
      = [?big, \<lparr>chunk_text = ''b'', metadata = ?m\<rparr>]"
    by code_simp
  then have mem: "?big \<in> set (splitIntoChunks (replicate 501 CHR ''a'' @ '' b'') ?m)"
    by simp
  have chars: "set (replicate 501 CHR ''a'' @ '' b'') = {CHR ''a'', CHR '' '', CHR ''b''}"
    by auto
  then have only: "\<forall>c \<in> set (replicate 501 CHR ''a'' @ '' b''). is_whitespace c \<longrightarrow> c = CHR '' ''"
    by (simp add: is_whitespace_def)
  have "length (chunk_text ?big) \<le> 500 \<or>
     (500 < length (chunk_text ?big) \<and> chunk_text ?big \<in> set (js_split (replicate 501 CHR ''a'' @ '' b'')) \<and>
      CHR '' '' \<notin> set (chunk_text ?big) \<and>
      word_sequence (\<lambda>c. c = CHR '' '') (chunk_text ?big) = [chunk_text ?big] \<and>
      ((\<forall>c \<in> set (replicate 501 CHR ''a'' @ '' b''). is_whitespace c \<longrightarrow> c = CHR '' '') \<longrightarrow>
         word_sequence is_whitespace (chunk_text ?big) = [chunk_text ?big]))"
    using splitIntoChunks_length_bound [of "replicate 501 CHR ''a'' @ '' b''" ?m is_whitespace] mem
    by (rule bspec)
  with only have "500 < length (chunk_text ?big) \<and>
      chunk_text ?big \<in> set (js_split (replicate 501 CHR ''a'' @ '' b'')) \<and>
      CHR '' '' \<notin> set (chunk_text ?big) \<and>
      word_sequence (\<lambda>c. c = CHR '' '') (chunk_text ?big) = [chunk_text ?big] \<and>
      word_sequence is_whitespace (chunk_text ?big) = [chunk_text ?big]"
    by simp
  then show ?thesis using chunks chars by simp
qed

text \<open>
  Claim C3 as stated, with words delimited by whitespace, fails: the source splits at the
  space character only, so three words of 200 characters separated by a tab and a newline
  stay together in one chunk of 602 characters.
\<close>

theorem splitIntoChunks_whitespace_words_counterexample:
  "\<lparr>chunk_text = three_words, metadata = \<lparr>source = None, title = None\<rparr>\<rparr>
     \<in> set (splitIntoChunks (three_words @ '' d'') \<lparr>source = None, title = None\<rparr>) \<and>
   length three_words = 602 \<and>
   word_sequence is_whitespace three_words
     = [replicate 200 CHR ''a'', replicate 200 CHR ''b'', replicate 200 CHR ''c''] \<and>
   \<not> (\<forall>ch \<in> set (splitIntoChunks (three_words @ '' d'') \<lparr>source = None, title = None\<rparr>).
          length (chunk_text ch) \<le> 500 \<or>
          (\<exists>w. word_sequence is_whitespace (chunk_text ch) = [w] \<and> 500 < length w))"
proof -
  let ?m = "\<lparr>source = None, title = None\<rparr>"
  let ?big = "\<lparr>chunk_text = three_words, metadata = ?m\<rparr>"
  have chunks: "splitIntoChunks (three_words @ '' d'') ?m = [?big, \<lparr>chunk_text = ''d'', metadata = ?m\<rparr>]"
    by code_simp
  then have mem: "?big \<in> set (splitIntoChunks (three_words @ '' d'') ?m)"
    by simp
  have len: "length three_words = 602"
    by (simp add: three_words_def)
  have ws: "word_sequence is_whitespace three_words
     = [replicate 200 CHR ''a'', replicate 200 CHR ''b'', replicate 200 CHR ''c'']"
    by code_simp
  have "\<not> (length (chunk_text ?big) \<le> 500 \<or>
          (\<exists>w. word_sequence is_whitespace (chunk_text ?big) = [w] \<and> 500 < length w))"
    using len ws by simp
  with mem have "\<not> (\<forall>ch \<in> set (splitIntoChunks (three_words @ '' d'') ?m).
          length (chunk_text ch) \<le> 500 \<or>
          (\<exists>w. word_sequence is_whitespace (chunk_text ch) = [w] \<and> 500 < length w))"
    by blast
  with mem len ws show ?thesis by blast
qed

text \<open>
  Claim C9. For every input text and metadata, no chunk produced by \<^verbatim>\<open>splitIntoChunks\<close> has the
  empty string as its text; a text that is empty or holds space characters only produces no
  chunk at all.
\<close>

theorem splitIntoChunks_no_empty_chunk:
  "(\<forall>ch \<in> set (splitIntoChunks t meta). chunk_text ch \<noteq> []) \<and>
   ((\<forall>c \<in> set t. c = CHR '' '') \<longrightarrow> splitIntoChunks t meta = [])"
proof
  show "\<forall>ch \<in> set (splitIntoChunks t meta). chunk_text ch \<noteq> []"
    unfolding splitIntoChunks_def by (rule chunk_words_nonempty) simp
  show "(\<forall>c \<in> set t. c = CHR '' '') \<longrightarrow> splitIntoChunks t meta = []"
  proof
    assume "\<forall>c \<in> set t. c = CHR '' ''"
    then have "\<forall>w \<in> set (js_split t). w = []"
      unfolding js_split_def by (rule split_by_all_sep)
    then show "splitIntoChunks t meta = []"
      unfolding splitIntoChunks_def by (rule chunk_words_all_empty)
  qed
qed

theorem splitIntoChunks_no_empty_chunk_witness:
  "set ''   '' = {CHR '' ''} \<and>
   splitIntoChunks ''   '' \<lparr>source = None, title = None\<rparr> = [] \<and>
   splitIntoChunks [] \<lparr>source = None, title = None\<rparr> = [] \<and>
   \<lparr>chunk_text = ''a  b '', metadata = \<lparr>source = None, title = None\<rparr>\<rparr>
     \<in> set (splitIntoChunks '' a  b '' \<lparr>source = None, title = None\<rparr>) \<and>
   ''a  b '' \<noteq> []"
proof -
  let ?m = "\<lparr>source = None, title = None\<rparr>"
  have a: "\<forall>c \<in> set ''   ''. c = CHR '' ''" by simp
  have b: "\<forall>c \<in> set []. c = CHR '' ''" by simp
  have c: "splitIntoChunks '' a  b '' ?m = [\<lparr>chunk_text = ''a  b '', metadata = ?m\<rparr>]"
    by (simp add: splitIntoChunks_def js_split_def CHUNK_SIZE_def)
  have "splitIntoChunks ''   '' ?m = []"
    using a splitIntoChunks_no_empty_chunk [of "''   ''" ?m] by blast
  moreover have "splitIntoChunks [] ?m = []"
    using b splitIntoChunks_no_empty_chunk [of "[]" ?m] by blast
  moreover have "chunk_text \<lparr>chunk_text = ''a  b '', metadata = ?m\<rparr> \<noteq> []"
    using c splitIntoChunks_no_empty_chunk [of "'' a  b ''" ?m] by simp
  ultimately show ?thesis using c by simp
qed

section \<open>Properties of ingestion\<close>

subsection \<open>Identifiers\<close>







lemma map_chunk_id_enumerate:
  "map (\<lambda>(chunkIndex, chunk). chunk_id d chunkIndex) (enumerate 0 chunks)
     = map (chunk_id d) [0..<length chunks]"
  by (rule nth_equalityI) (simp_all add: nth_enumerate_eq)

lemma forEach_documents_Inr:
  "forEach_documents docs k (A, I, T, M) = Inr (A', I', T', M') \<Longrightarrow>
     (\<forall>doc \<in> set docs. doc_chunks doc = Inr (chunks_of doc)) \<and>
     A' = A @ concat (map chunks_of docs) \<and>
     I' = I @ concat (map (\<lambda>(d, doc). doc_ids d doc) (enumerate k docs)) \<and>
     T' = T @ map chunk_text (concat (map chunks_of docs)) \<and>
     M' = M @ map metadata (concat (map chunks_of docs))"
proof (induction docs arbitrary: k A I T M)
  case Nil
  then show ?case by simp
next
  case (Cons doc docs)
  from Cons.prems obtain chunks where dc: "doc_chunks doc = Inr chunks"
    by (cases "doc_chunks doc") auto
  then have co: "chunks_of doc = chunks" by (simp add: chunks_of_def)
  from Cons.prems dc have
    "forEach_documents docs (Suc k)
       (A @ chunks, I @ map (chunk_id k) [0..<length chunks],
        T @ map chunk_text chunks, M @ map metadata chunks) = Inr (A', I', T', M')"
    by (simp add: map_chunk_id_enumerate)
  from Cons.IH [OF this] dc co show ?case
    by (simp add: doc_ids_def)
qed


lemma forEach_documents_fails:
  "doc \<in> set docs \<Longrightarrow> doc_chunks doc = Inl e \<Longrightarrow> \<exists>e'. forEach_documents docs k acc = Inl e'"
proof (induction docs arbitrary: k acc)
  case Nil
  then show ?case by simp
next
  case (Cons d docs)
  obtain A I T M where acc: "acc = (A, I, T, M)" by (metis prod_cases4)
  show ?case
  proof (cases "doc_chunks d")
    case (Inl a)
    with acc show ?thesis by simp
  next
    case (Inr cs)
    with Cons.prems have "doc \<in> set docs" by auto
    from Cons.IH [OF this Cons.prems(2)] Inr acc show ?thesis by simp
  qed
qed



lemma length_enumerate_ids:
  "length (concat (map (\<lambda>(d, doc). doc_ids d doc) (enumerate k docs)))
     = (\<Sum>d<length docs. length (chunks_of (docs ! d)))"
proof (induction docs arbitrary: k)
  case Nil
  then show ?case by simp
next
  case (Cons doc docs)
  have "(\<Sum>d<Suc (length docs). length (chunks_of ((doc # docs) ! d)))
        = length (chunks_of doc) + (\<Sum>d<length docs. length (chunks_of (docs ! d)))"
    by (subst sum.lessThan_Suc_shift) simp
  with Cons.IH [of "Suc k"] show ?case
    by (simp add: enumerate_simps doc_ids_def)
qed




subsection \<open>One insert, after the whole corpus\<close>

lemma processDocuments_trace_cases:
  "trace (processDocuments ext s) = [Query [JStr '' ''] (JNum 1)] \<and> store (processDocuments ext s) = s
   \<or> trace (processDocuments ext s) = [Query [JStr '' ''] (JNum 1), ReadJSON] \<and> store (processDocuments ext s) = s
   \<or> (\<exists>docs A i t m. readJSON ext = Inr (JArr docs) \<and>
         forEach_documents docs 0 ([], [], [], []) = Inr (A, i, t, m) \<and>
         trace (processDocuments ext s) = [Query [JStr '' ''] (JNum 1), ReadJSON, Add i t m] \<and>
         store (processDocuments ext s) = snd (collection_add ext s i t m))"
  by (auto simp: processDocuments_def Let_def split: sum.splits json.splits prod.splits option.splits)

lemma processDocuments_read_failure:
  assumes "readJSON ext = Inl e"
  shows "(\<forall>i t m. Add i t m \<notin> set (trace (processDocuments ext s))) \<and> store (processDocuments ext s) = s"
  using assms by (auto simp: processDocuments_def Let_def split: sum.splits)

lemma processDocuments_not_array:
  assumes "readJSON ext = Inr v" "\<forall>docs. v \<noteq> JArr docs"
  shows "(\<forall>i t m. Add i t m \<notin> set (trace (processDocuments ext s))) \<and> store (processDocuments ext s) = s"
  using assms by (auto simp: processDocuments_def Let_def split: sum.splits json.splits)

lemma processDocuments_chunk_failure:
  assumes "readJSON ext = Inr (JArr docs)" "doc \<in> set docs" "doc_chunks doc = Inl e"
  shows "(\<forall>i t m. Add i t m \<notin> set (trace (processDocuments ext s))) \<and> store (processDocuments ext s) = s"
proof -
  from assms(2,3) obtain e' where "forEach_documents docs 0 ([], [], [], []) = Inl e'"
    using forEach_documents_fails by blast
  with assms(1) show ?thesis
    by (auto simp: processDocuments_def Let_def split: sum.splits)
qed

text \<open>
  Claim C7. A run of \<^verbatim>\<open>processDocuments\<close> either makes no call of \<^verbatim>\<open>collection.add\<close> and
  leaves the collection as it was, or makes exactly one, as its last external call, with
  the identifiers, texts and metadata of all chunks of all documents of the corpus. When
  reading the corpus file fails, when the corpus is no array, or when the chunking of one
  document raises, the run makes no insert and the collection is unchanged.
\<close>

theorem processDocuments_single_bulk_insert:
  "(((\<forall>i t m. Add i t m \<notin> set (trace (processDocuments ext s))) \<and> store (processDocuments ext s) = s) \<or>
    (\<exists>docs allChunks ids' texts metadatas'.
        readJSON ext = Inr (JArr docs) \<and>
        forEach_documents docs 0 ([], [], [], []) = Inr (allChunks, ids', texts, metadatas') \<and>
        (\<forall>doc \<in> set docs. doc_chunks doc = Inr (chunks_of doc)) \<and>
        texts = map chunk_text (concat (map chunks_of docs)) \<and>
        metadatas' = map metadata (concat (map chunks_of docs)) \<and>
        length ids' = length texts \<and>
        trace (processDocuments ext s) = [Query [JStr '' ''] (JNum 1), ReadJSON, Add ids' texts metadatas'] \<and>
        store (processDocuments ext s) = snd (collection_add ext s ids' texts metadatas'))) \<and>
   ((\<exists>e. readJSON ext = Inl e) \<or>
    (\<exists>v. readJSON ext = Inr v \<and> (\<forall>docs. v \<noteq> JArr docs)) \<or>
    (\<exists>docs doc e. readJSON ext = Inr (JArr docs) \<and> doc \<in> set docs \<and> doc_chunks doc = Inl e)
    \<longrightarrow> (\<forall>i t m. Add i t m \<notin> set (trace (processDocuments ext s))) \<and> store (processDocuments ext s) = s)"
proof (intro conjI impI)
  let ?r = "processDocuments ext s"
  let ?none = "(\<forall>i t m. Add i t m \<notin> set (trace ?r)) \<and> store ?r = s"
  from processDocuments_trace_cases [of ext s]
  consider "trace ?r = [Query [JStr '' ''] (JNum 1)] \<and> store ?r = s"
    | "trace ?r = [Query [JStr '' ''] (JNum 1), ReadJSON] \<and> store ?r = s"
    | docs A i t m where "readJSON ext = Inr (JArr docs)"
        "forEach_documents docs 0 ([], [], [], []) = Inr (A, i, t, m)"
        "trace ?r = [Query [JStr '' ''] (JNum 1), ReadJSON, Add i t m]"
        "store ?r = snd (collection_add ext s i t m)"
    by blast
  then show "?none \<or>
    (\<exists>docs allChunks ids' texts metadatas'.
        readJSON ext = Inr (JArr docs) \<and>
        forEach_documents docs 0 ([], [], [], []) = Inr (allChunks, ids', texts, metadatas') \<and>
        (\<forall>doc \<in> set docs. doc_chunks doc = Inr (chunks_of doc)) \<and>
        texts = map chunk_text (concat (map chunks_of docs)) \<and>
        metadatas' = map metadata (concat (map chunks_of docs)) \<and>
        length ids' = length texts \<and>
        trace ?r = [Query [JStr '' ''] (JNum 1), ReadJSON, Add ids' texts metadatas'] \<and>
        store ?r = snd (collection_add ext s ids' texts metadatas'))"
  proof cases
    case 1
    then show ?thesis by simp
  next
    case 2
    then show ?thesis by simp
  next
    case 3
    from forEach_documents_Inr [OF 3(2)] have
      ok: "\<forall>doc \<in> set docs. doc_chunks doc = Inr (chunks_of doc)"
      and t: "t = map chunk_text (concat (map chunks_of docs))"
      and m: "m = map metadata (concat (map chunks_of docs))"
      and i: "i = concat (map (\<lambda>(d, doc). doc_ids d doc) (enumerate 0 docs))"
      by simp_all
    have "length i = (\<Sum>d<length docs. length (chunks_of (docs ! d)))"
      unfolding i by (rule length_enumerate_ids)
    also have "\<dots> = length (concat (map chunks_of docs))"
      by (simp add: length_concat sum_list_sum_nth atLeast0LessThan)
    finally have "length i = length t" using t by simp
    with 3 ok t m show ?thesis by blast
  qed
next
  assume "(\<exists>e. readJSON ext = Inl e) \<or>
    (\<exists>v. readJSON ext = Inr v \<and> (\<forall>docs. v \<noteq> JArr docs)) \<or>
    (\<exists>docs doc e. readJSON ext = Inr (JArr docs) \<and> doc \<in> set docs \<and> doc_chunks doc = Inl e)"
  then have "(\<forall>i t m. Add i t m \<notin> set (trace (processDocuments ext s))) \<and> store (processDocuments ext s) = s"
    using processDocuments_read_failure [of ext _ s] processDocuments_not_array [of ext _ s]
      processDocuments_chunk_failure [of ext _ _ _ s]
    by blast
  then show "\<forall>i t m. Add i t m \<notin> set (trace (processDocuments ext s))"
    and "store (processDocuments ext s) = s" by simp_all
qed

theorem processDocuments_single_bulk_insert_witness:
  "trace (processDocuments (no_ids_external (Inr (JArr [mining_doc, mining_doc])) (\<lambda>r. Inr [])) [])
     = [Query [JStr '' ''] (JNum 1), ReadJSON,
        Add [''0-0'', ''1-0''] [''Kadena uses Blake2s mining.'', ''Kadena uses Blake2s mining.'']
          [mining_metadata, mining_metadata]] \<and>
   store (processDocuments (no_ids_external (Inr (JArr [mining_doc, mining_doc])) (\<lambda>r. Inr [])) [])
     = [(''0-0'', ''Kadena uses Blake2s mining.'', mining_metadata),
        (''1-0'', ''Kadena uses Blake2s mining.'', mining_metadata)] \<and>
   doc_chunks (JObj [(''content'', JNum 7)]) = Inl TypeError \<and>
   trace (processDocuments (no_ids_external (Inr (JArr [mining_doc, JObj [(''content'', JNum 7)]])) (\<lambda>r. Inr [])) [])
     = [Query [JStr '' ''] (JNum 1), ReadJSON] \<and>
   store (processDocuments (no_ids_external (Inr (JArr [mining_doc, JObj [(''content'', JNum 7)]])) (\<lambda>r. Inr [])) [])
     = [] \<and>
   store (processDocuments (no_ids_external (Inl (Failure ''ENOENT'')) (\<lambda>r. Inr [])) []) = []"
proof -
  let ?good = "no_ids_external (Inr (JArr [mining_doc, mining_doc])) (\<lambda>r. Inr [])"
  let ?bad = "no_ids_external (Inr (JArr [mining_doc, JObj [(''content'', JNum 7)]])) (\<lambda>r. Inr [])"
  let ?unread = "no_ids_external (Inl (Failure ''ENOENT'')) (\<lambda>r. Inr [])"
  have good: "trace (processDocuments ?good [])
     = [Query [JStr '' ''] (JNum 1), ReadJSON,
        Add [''0-0'', ''1-0''] [''Kadena uses Blake2s mining.'', ''Kadena uses Blake2s mining.'']
          [mining_metadata, mining_metadata]]"
    by code_simp
  have good_store: "store (processDocuments ?good []) = snd (collection_add ?good [] [''0-0'', ''1-0'']
         [''Kadena uses Blake2s mining.'', ''Kadena uses Blake2s mining.''] [mining_metadata, mining_metadata])"
    using processDocuments_single_bulk_insert [of ?good "[]"] good by auto
  have bad_doc: "doc_chunks (JObj [(''content'', JNum 7)]) = Inl TypeError"
    by (simp add: doc_chunks_def)
  have bad_read: "readJSON ?bad = Inr (JArr [mining_doc, JObj [(''content'', JNum 7)]])"
    by (simp add: no_ids_external_def mem_external_def)
  have bad: "(\<forall>i t m. Add i t m \<notin> set (trace (processDocuments ?bad []))) \<and> store (processDocuments ?bad []) = []"
    using processDocuments_single_bulk_insert [of ?bad "[]"] bad_doc bad_read by auto
  have bad_trace: "trace (processDocuments ?bad []) = [Query [JStr '' ''] (JNum 1), ReadJSON]"
    by code_simp
  have "readJSON ?unread = Inl (Failure ''ENOENT'')"
    by (simp add: no_ids_external_def mem_external_def)
  then have unread: "store (processDocuments ?unread []) = []"
    using processDocuments_single_bulk_insert [of ?unread "[]"] by auto
  from good good_store bad_doc bad bad_trace unread show ?thesis
    by (simp add: no_ids_external_def mem_external_def mem_add_def)
qed

subsection \<open>The probe\<close>

text \<open>
  The run returns without reading or inserting exactly when the probe's response has a
  non-empty \<^verbatim>\<open>ids\<close> array.
\<close>

lemma processDocuments_Skipped_iff:
  "outcome (processDocuments ext s) = Skipped \<longleftrightarrow>
     (\<exists>check. collection_query ext s [JStr '' ''] (JNum 1) = Inr check \<and> probe_hit check)"
  by (auto simp: processDocuments_def Let_def split: sum.splits json.splits prod.splits option.splits)

text \<open>
  Claim C1. The claim says that a run returns without inserting exactly when its probe, one
  query of a single space for one result, returns some id, and otherwise reads, chunks and
  inserts the corpus. The array \<^verbatim>\<open>check.ids\<close> holds one inner array per query text, so its
  length is 1 whatever the collection holds. On an empty collection that answers the probe
  with an empty result set, the probe returns no id and the run still returns without
  reading or inserting: the corpus is never ingested.
\<close>

theorem processDocuments_empty_collection_skips:
  "collection_query (mem_external (Inr (JArr [mining_doc])) (\<lambda>r. Inr [])) [] [JStr '' ''] (JNum 1)
     = Inr (Some \<lparr>ids = Some [[]], documents = [[]], metadatas = [[]]\<rparr>) \<and>
   returned_ids (Some \<lparr>ids = Some [[]], documents = [[]], metadatas = [[]]\<rparr>) = [] \<and>
   probe_hit (Some \<lparr>ids = Some [[]], documents = [[]], metadatas = [[]]\<rparr>) \<and>
   processDocuments (mem_external (Inr (JArr [mining_doc])) (\<lambda>r. Inr [])) []
     = \<lparr>outcome = Skipped, store = [], trace = [Query [JStr '' ''] (JNum 1)]\<rparr>"
  by (simp add: processDocuments_def mem_external_def mem_query_def probe_hit_def returned_ids_def)

section \<open>Properties of the query engine\<close>






text \<open>
  Claim C6. \<^verbatim>\<open>KadenaRAG.query\<close> returns an answer exactly when the retrieval answers, the
  question converts to a string and the completion succeeds, and then \<^verbatim>\<open>answer\<close> is the text
  of the first choice of the completion and \<^verbatim>\<open>sources\<close> is the sequence of
  \<^verbatim>\<open>{ title, source }\<close> of the retrieved chunks' metadata, in rank order, one per chunk,
  duplicates kept.
\<close>

theorem KadenaRAG_query_answer_sources:
  "fst (KadenaRAG_query ext s question numResults) = Inr a \<longleftrightarrow>
     (\<exists>results docs0 drest metas0 mrest question_text c cs.
        collection_query ext s [question] (case numResults of None \<Rightarrow> JNum 5 | Some v \<Rightarrow> v)
          = Inr (Some results) \<and>
        documents results = docs0 # drest \<and>
        metadatas results = metas0 # mrest \<and>
        js_to_string (number_toString ext) question = Inr question_text \<and>
        chat_completions_create ext
          (chat_request_of (join [CHR 0x0A, CHR 0x0A] docs0) question_text) = Inr (c # cs) \<and>
        a = \<lparr>answer = c, sources = map (\<lambda>meta. (title meta, source meta)) metas0\<rparr>)"
  by (auto simp: KadenaRAG_query_def Vectorizer_query_def Let_def
           split: sum.splits list.splits option.splits)

theorem KadenaRAG_query_answer_sources_witness:
  "fst (KadenaRAG_query (mem_external (Inl (Failure ''unused'')) (\<lambda>r. Inr [''Blake2s''])) mining_store
          (JStr ''Which hash?'') (Some (JNum 1)))
     = Inr \<lparr>answer = ''Blake2s'', sources = [(Some (JStr ''Mining''), Some (JStr ''mining.md''))]\<rparr> \<and>
   fst (KadenaRAG_query (mem_external (Inl (Failure ''unused'')) (\<lambda>r. Inr [''Blake2s''])) mining_store
          (JStr ''Which hash?'') None)
     = Inr \<lparr>answer = ''Blake2s'',
            sources = [(Some (JStr ''Mining''), Some (JStr ''mining.md'')),
                       (Some (JStr ''Mining''), Some (JStr ''mining.md''))]\<rparr> \<and>
   fst (KadenaRAG_query (mem_external (Inl (Failure ''unused'')) (\<lambda>r. Inr [''Blake2s''])) mining_store
          (JObj [(''toString'', JNum 1)]) None)
     \<noteq> Inr \<lparr>answer = ''Blake2s'',
            sources = [(Some (JStr ''Mining''), Some (JStr ''mining.md'')),
                       (Some (JStr ''Mining''), Some (JStr ''mining.md''))]\<rparr>"
proof -
  let ?ext = "mem_external (Inl (Failure ''unused'')) (\<lambda>r. Inr [''Blake2s''])"
  have q1: "collection_query ?ext mining_store [JStr ''Which hash?''] (case Some (JNum 1) of None \<Rightarrow> JNum 5 | Some v \<Rightarrow> v)
      = Inr (Some \<lparr>ids = Some [[''0-0'']],
                   documents = [[''Kadena uses Blake2s mining.'']],
                   metadatas = [[mining_metadata]]\<rparr>)"
    by (simp add: mem_external_def mem_query_def nResults_nat_def mining_store_def)
  have q5: "collection_query ?ext mining_store [JStr ''Which hash?''] (case None of None \<Rightarrow> JNum 5 | Some v \<Rightarrow> v)
      = Inr (Some \<lparr>ids = Some [[''0-0'', ''0-1'']],
                   documents = [[''Kadena uses Blake2s mining.'', ''Chainweb braids many chains.'']],
                   metadatas = [[mining_metadata, mining_metadata]]\<rparr>)"
    by (simp add: mem_external_def mem_query_def nResults_nat_def mining_store_def)
  have llm: "\<And>req. chat_completions_create ?ext req = Inr [''Blake2s'']"
    by (simp add: mem_external_def)
  have "fst (KadenaRAG_query ?ext mining_store (JStr ''Which hash?'') (Some (JNum 1)))
     = Inr \<lparr>answer = ''Blake2s'', sources = map (\<lambda>meta. (title meta, source meta)) [mining_metadata]\<rparr>"
    using q1 llm
    by (subst KadenaRAG_query_answer_sources) simp
  moreover have "fst (KadenaRAG_query ?ext mining_store (JStr ''Which hash?'') None)
     = Inr \<lparr>answer = ''Blake2s'', sources = map (\<lambda>meta. (title meta, source meta)) [mining_metadata, mining_metadata]\<rparr>"
    using q5 llm
    by (subst KadenaRAG_query_answer_sources) simp
  moreover have "fst (KadenaRAG_query ?ext mining_store (JObj [(''toString'', JNum 1)]) None)
     \<noteq> Inr \<lparr>answer = ''Blake2s'', sources = map (\<lambda>meta. (title meta, source meta)) [mining_metadata, mining_metadata]\<rparr>"
    by (subst KadenaRAG_query_answer_sources) simp
  ultimately show ?thesis by (simp add: mining_metadata_def)
qed

section \<open>Properties of the request handler\<close>

lemma get_prop_numResults:
  "get_prop req_body ''question'' = Inr q \<Longrightarrow> \<exists>n. get_prop req_body ''numResults'' = Inr n"
  by (cases req_body) simp_all

text \<open>
  Claim C8. For every request whose body has no \<^verbatim>\<open>question\<close> field, the handler answers with
  status 400 and the error \<^verbatim>\<open>Question is required\<close>, and calls neither the retrieval nor the
  completion.
\<close>

theorem post_rag_missing_question:
  "get_prop req_body ''question'' = Inr None \<Longrightarrow>
     post_rag ext s req_body = (\<lparr>status = 400, body = ErrorBody ''Question is required''\<rparr>, [])"
proof -
  assume q: "get_prop req_body ''question'' = Inr None"
  then obtain n where "get_prop req_body ''numResults'' = Inr n"
    using get_prop_numResults by blast
  with q show ?thesis by (simp add: post_rag_def)
qed

theorem post_rag_missing_question_witness:
  "get_prop (JObj []) ''question'' = Inr None \<and>
   post_rag (mem_external (Inl (Failure ''unused'')) (\<lambda>r. Inr [''Blake2s''])) mining_store (JObj [])
     = (\<lparr>status = 400, body = ErrorBody ''Question is required''\<rparr>, []) \<and>
   get_prop (JObj [(''numResults'', JNum 3)]) ''question'' = Inr None \<and>
   post_rag (mem_external (Inl (Failure ''unused'')) (\<lambda>r. Inr [''Blake2s''])) mining_store
       (JObj [(''numResults'', JNum 3)])
     = (\<lparr>status = 400, body = ErrorBody ''Question is required''\<rparr>, [])"
proof -
  let ?ext = "mem_external (Inl (Failure ''unused'')) (\<lambda>r. Inr [''Blake2s''])"
  have a: "get_prop (JObj []) ''question'' = Inr None" by simp
  have b: "get_prop (JObj [(''numResults'', JNum 3)]) ''question'' = Inr None" by simp
  show ?thesis
    using a b
      post_rag_missing_question [of "JObj []" ?ext mining_store]
      post_rag_missing_question [of "JObj [(''numResults'', JNum 3)]" ?ext mining_store]
    by blast
qed

text \<open>
  Claim C10. For every request whose \<^verbatim>\<open>question\<close> field is present: a falsy question, the
  empty string among them, gets the same 400 response as a missing one, with no external
  call; a truthy question, a string of spaces among them, is passed to \<^verbatim>\<open>rag.query\<close>, whose
  first call is the retrieval for that question, and the response has status 200 or 500.
\<close>

theorem post_rag_question_truthiness:
  assumes "get_prop req_body ''question'' = Inr (Some q)"
  shows "(\<not> truthy q \<longrightarrow>
            post_rag ext s req_body = (\<lparr>status = 400, body = ErrorBody ''Question is required''\<rparr>, [])) \<and>
         (truthy q \<longrightarrow>
            (\<exists>n given. get_prop req_body ''numResults'' = Inr given \<and>
               n = (case given of None \<Rightarrow> JNum 5 | Some v \<Rightarrow> v) \<and>
               post_rag ext s req_body =
                 (case KadenaRAG_query ext s q (Some n) of
                    (Inl e, tr) \<Rightarrow>
                      (\<lparr>status = 500, body = FailureBody ''Failed to process question'' e\<rparr>, tr)
                  | (Inr response, tr) \<Rightarrow>
                      (\<lparr>status = 200, body = AnswerBody q (answer response) (sources response)\<rparr>, tr)) \<and>
               (\<exists>rest. snd (post_rag ext s req_body) = Query [q] n # rest) \<and>
               status (fst (post_rag ext s req_body)) \<noteq> 400)) \<and>
         truthy (JStr ''   '') \<and> \<not> truthy (JStr [])"
proof -
  from assms obtain given where g: "get_prop req_body ''numResults'' = Inr given"
    using get_prop_numResults by blast
  let ?n = "case given of None \<Rightarrow> JNum 5 | Some v \<Rightarrow> v"
  have first: "\<exists>rest. snd (KadenaRAG_query ext s q (Some ?n)) = Query [q] ?n # rest"
    by (auto simp: KadenaRAG_query_def Let_def split: sum.splits list.splits option.splits)
  have falsy: "\<not> truthy q \<Longrightarrow>
      post_rag ext s req_body = (\<lparr>status = 400, body = ErrorBody ''Question is required''\<rparr>, [])"
    using assms g by (simp add: post_rag_def)
  have run: "truthy q \<Longrightarrow> post_rag ext s req_body =
                 (case KadenaRAG_query ext s q (Some ?n) of
                    (Inl e, tr) \<Rightarrow>
                      (\<lparr>status = 500, body = FailureBody ''Failed to process question'' e\<rparr>, tr)
                  | (Inr response, tr) \<Rightarrow>
                      (\<lparr>status = 200, body = AnswerBody q (answer response) (sources response)\<rparr>, tr))"
    using assms g by (simp add: post_rag_def Let_def)
  have tr: "truthy q \<Longrightarrow> snd (post_rag ext s req_body) = snd (KadenaRAG_query ext s q (Some ?n))"
    by (simp add: run split: prod.splits sum.splits)
  have st: "truthy q \<Longrightarrow> status (fst (post_rag ext s req_body)) \<noteq> 400"
    by (simp add: run split: prod.splits sum.splits)
  from falsy run tr st first g show ?thesis by auto
qed

theorem post_rag_question_truthiness_witness:
  "get_prop (JObj [(''question'', JStr [])]) ''question'' = Inr (Some (JStr [])) \<and>
   post_rag (mem_external (Inl (Failure ''unused'')) (\<lambda>r. Inr [''Blake2s''])) mining_store
       (JObj [(''question'', JStr [])])
     = (\<lparr>status = 400, body = ErrorBody ''Question is required''\<rparr>, []) \<and>
   post_rag (mem_external (Inl (Failure ''unused'')) (\<lambda>r. Inr [''Blake2s''])) mining_store
       (JObj [(''question'', JNum 0)])
     = (\<lparr>status = 400, body = ErrorBody ''Question is required''\<rparr>, []) \<and>
   get_prop (JObj [(''question'', JStr ''   '')]) ''question'' = Inr (Some (JStr ''   '')) \<and>
   truthy (JStr ''   '') \<and>
   status (fst (post_rag (mem_external (Inl (Failure ''unused'')) (\<lambda>r. Inr [''Blake2s''])) mining_store
       (JObj [(''question'', JStr ''   '')]))) = 200 \<and>
   hd (snd (post_rag (mem_external (Inl (Failure ''unused'')) (\<lambda>r. Inr [''Blake2s''])) mining_store
       (JObj [(''question'', JStr ''   '')]))) = Query [JStr ''   ''] (JNum 5)"
proof -
  let ?ext = "mem_external (Inl (Failure ''unused'')) (\<lambda>r. Inr [''Blake2s''])"
  have e: "get_prop (JObj [(''question'', JStr [])]) ''question'' = Inr (Some (JStr []))" by simp
  have z: "get_prop (JObj [(''question'', JNum 0)]) ''question'' = Inr (Some (JNum 0))" by simp
  have w: "get_prop (JObj [(''question'', JStr ''   '')]) ''question'' = Inr (Some (JStr ''   ''))" by simp
  have wn: "get_prop (JObj [(''question'', JStr ''   '')]) ''numResults'' = Inr None" by simp
  have st: "status (fst (post_rag ?ext mining_store (JObj [(''question'', JStr ''   '')]))) = 200"
    by (simp add: post_rag_def KadenaRAG_query_def Vectorizer_query_def mem_external_def
        mem_query_def nResults_nat_def mining_store_def Let_def)
  have "hd (snd (post_rag ?ext mining_store (JObj [(''question'', JStr ''   '')]))) = Query [JStr ''   ''] (JNum 5)"
    using post_rag_question_truthiness [OF w, of ?ext mining_store] wn by auto
  moreover have "post_rag ?ext mining_store (JObj [(''question'', JStr [])])
     = (\<lparr>status = 400, body = ErrorBody ''Question is required''\<rparr>, [])"
    using post_rag_question_truthiness [OF e, of ?ext mining_store] by simp
  moreover have "post_rag ?ext mining_store (JObj [(''question'', JNum 0)])
     = (\<lparr>status = 400, body = ErrorBody ''Question is required''\<rparr>, [])"
    using post_rag_question_truthiness [OF z, of ?ext mining_store] by simp
  ultimately show ?thesis using e w st by simp
qed

end
